theory Spec2Isabelle
  imports Main "HOL-Library.Word"
begin

section \<open>The per-type statement-and-image cache of odb/sqlite\<close>

text \<open>
  A shallow embedding of \<^verbatim>\<open>odb/sqlite/simple-object-statements.hxx\<close>. Each class is
  a record, inheritance is record extension, a member function is a function from the
  object's state to its new state, and \<^verbatim>\<open>assert\<close> is a branch that ends the call.
  Isabelle reserves the names that end in an underscore, so the trailing underscore of a
  C++ member is written \<open>_m\<close>: \<^verbatim>\<open>locked_\<close> is \<open>locked_m\<close>. Where C++ overloads a
  getter and a setter, the setter has the suffix \<open>_set\<close>.
\<close>

subsection \<open>Outcomes of a call\<close>

text \<open>
  A call returns normally, leaves by a C++ exception (the state is the one the caller sees
  after unwinding), or stops at a failed \<^verbatim>\<open>assert\<close>.
\<close>

datatype 's outcome = Returned 's | Thrown 's | Assertion_failed

subsection \<open>Collaborators\<close>

text \<open>\<^verbatim>\<open>std::size_t\<close>, at the width of an LP64 platform.\<close>

type_synonym size_t = "64 word"

text \<open>A connection is used only as an argument of the statement constructors.\<close>

type_synonym connection = nat

text \<open>An address in the free store; a null pointer is \<open>None\<close>.\<close>

type_synonym addr = nat

text \<open>
  The static descriptor \<^verbatim>\<open>object_traits_impl<T, id_sqlite>\<close> as far as the header reads it:
  the five column counts and the five statement texts.
\<close>

record object_traits =
  column_count :: size_t
  inverse_column_count :: size_t
  managed_optimistic_column_count :: size_t
  id_column_count :: size_t
  readonly_column_count :: size_t
  persist_statement_text :: string
  find_statement_text :: string
  update_statement_text :: string
  erase_statement_text :: string
  optimistic_erase_statement_text :: string

text \<open>
  The \<^verbatim>\<open>binding\<close> members of the cache. A statement constructor receives one by
  reference, so a binding is denoted by the member that holds it.
\<close>

datatype binding_member =
    select_image_binding_m
  | insert_image_binding_m
  | update_image_binding_m
  | id_image_binding_m
  | od_id_image_binding_m

text \<open>What \<^verbatim>\<open>new\<close> puts in the free store: a statement or the container statement cache.\<close>

datatype heap_object =
    insert_statement connection string binding_member
  | select_statement connection string binding_member binding_member
  | update_statement_obj connection string binding_member
  | delete_statement connection string binding_member
  | container_statement_cache connection binding_member

text \<open>The free store: the cell at an address holds an object, or \<open>None\<close> once deleted.\<close>

type_synonym heap = "heap_object option list"

text \<open>\<^verbatim>\<open>new\<close>: the object is stored at a fresh address, the next free index.\<close>

definition new_object :: "heap_object \<Rightarrow> heap \<Rightarrow> addr \<times> heap" where
  "new_object x h = (length h, h @ [Some x])"

definition delete_object :: "addr \<Rightarrow> heap \<Rightarrow> heap" where
  "delete_object a h = h[a := None]"

subsection \<open>Delayed loads\<close>

text \<open>
  \<^verbatim>\<open>loader_function\<close> is a pointer to a function; the null pointer, the default argument
  of \<^verbatim>\<open>delay_load\<close>, is \<open>0\<close>.
\<close>

type_synonym loader_function = nat

record ('i, 'o, 'p) delayed_load =
  id_dl :: 'i
  obj :: 'o
  pos :: 'p
  loader :: loader_function

subsection \<open>The classes\<close>

text \<open>\<^verbatim>\<open>container_statement_cache_ptr<T>\<close>: the pointer \<^verbatim>\<open>p_\<close>.\<close>

record container_statement_cache_ptr =
  p_m :: "addr option"

text \<open>
  \<^verbatim>\<open>optimistic_data<T, optimistic>\<close>: the specialisation for \<^verbatim>\<open>false\<close> has no member,
  the one for \<^verbatim>\<open>true\<close> has the version of the id image, its binding
  (\<^const>\<open>od_id_image_binding_m\<close>) and the pointer \<^verbatim>\<open>erase_\<close>.
\<close>

datatype optimistic_data =
    optimistic_data_false
  | optimistic_data_true (od_id_image_version_m: size_t) (od_erase_m: "addr option")

record statements_base =
  conn_m :: connection

record object_statements_base = statements_base +
  locked_m :: bool

record ('i, 'o, 'p) object_statements = object_statements_base +
  container_statement_cache_m :: container_statement_cache_ptr
  select_image_version_m :: size_t
  insert_image_version_m :: size_t
  update_image_version_m :: size_t
  update_id_image_version_m :: size_t
  id_image_version_m :: size_t
  od_m :: optimistic_data
  persist_m :: "addr option"
  find_m :: "addr option"
  update_m :: "addr option"
  erase_m :: "addr option"
  delayed_m :: "('i, 'o, 'p) delayed_load list"

subsection \<open>Locking\<close>

definition lock :: "'a object_statements_base_scheme \<Rightarrow> 'a object_statements_base_scheme outcome" where
  "lock s = (if locked_m s then Assertion_failed else Returned (s\<lparr>locked_m := True\<rparr>))"

definition unlock :: "'a object_statements_base_scheme \<Rightarrow> 'a object_statements_base_scheme outcome" where
  "unlock s = (if \<not> locked_m s then Assertion_failed else Returned (s\<lparr>locked_m := False\<rparr>))"

definition locked :: "'a object_statements_base_scheme \<Rightarrow> bool" where
  "locked s = locked_m s"

subsection \<open>Queueing a delayed load\<close>

definition delay_load ::
  "'i \<Rightarrow> 'o \<Rightarrow> 'p \<Rightarrow> loader_function \<Rightarrow> ('i, 'o, 'p) object_statements \<Rightarrow> ('i, 'o, 'p) object_statements" where
  "delay_load i ob p l s =
     s\<lparr>delayed_m := delayed_m s @ [\<lparr>id_dl = i, obj = ob, pos = p, loader = l\<rparr>]\<rparr>"

subsection \<open>Image versions\<close>

definition insert_image_version :: "('i, 'o, 'p) object_statements \<Rightarrow> size_t" where
  "insert_image_version s = insert_image_version_m s"

definition insert_image_version_set :: "size_t \<Rightarrow> ('i, 'o, 'p) object_statements \<Rightarrow> ('i, 'o, 'p) object_statements" where
  "insert_image_version_set v s = s\<lparr>insert_image_version_m := v\<rparr>"

definition update_image_version :: "('i, 'o, 'p) object_statements \<Rightarrow> size_t" where
  "update_image_version s = update_image_version_m s"

definition update_image_version_set :: "size_t \<Rightarrow> ('i, 'o, 'p) object_statements \<Rightarrow> ('i, 'o, 'p) object_statements" where
  "update_image_version_set v s = s\<lparr>update_image_version_m := v\<rparr>"

definition update_id_image_version :: "('i, 'o, 'p) object_statements \<Rightarrow> size_t" where
  "update_id_image_version s = update_id_image_version_m s"

definition update_id_image_version_set :: "size_t \<Rightarrow> ('i, 'o, 'p) object_statements \<Rightarrow> ('i, 'o, 'p) object_statements" where
  "update_id_image_version_set v s = s\<lparr>update_id_image_version_m := v\<rparr>"

definition select_image_version :: "('i, 'o, 'p) object_statements \<Rightarrow> size_t" where
  "select_image_version s = select_image_version_m s"

definition select_image_version_set :: "size_t \<Rightarrow> ('i, 'o, 'p) object_statements \<Rightarrow> ('i, 'o, 'p) object_statements" where
  "select_image_version_set v s = s\<lparr>select_image_version_m := v\<rparr>"

definition id_image_version :: "('i, 'o, 'p) object_statements \<Rightarrow> size_t" where
  "id_image_version s = id_image_version_m s"

definition id_image_version_set :: "size_t \<Rightarrow> ('i, 'o, 'p) object_statements \<Rightarrow> ('i, 'o, 'p) object_statements" where
  "id_image_version_set v s = s\<lparr>id_image_version_m := v\<rparr>"

text \<open>
  The three members that go through \<^verbatim>\<open>od_\<close> exist only where \<^verbatim>\<open>od_\<close> is the
  specialisation for \<^verbatim>\<open>true\<close>; for the other one they cannot be instantiated, which is
  \<open>None\<close> here.
\<close>

definition optimistic_id_image_version :: "('i, 'o, 'p) object_statements \<Rightarrow> size_t option" where
  "optimistic_id_image_version s =
     (case od_m s of optimistic_data_false \<Rightarrow> None
      | optimistic_data_true v e \<Rightarrow> Some v)"

definition optimistic_id_image_version_set ::
  "size_t \<Rightarrow> ('i, 'o, 'p) object_statements \<Rightarrow> ('i, 'o, 'p) object_statements option" where
  "optimistic_id_image_version_set v s =
     (case od_m s of optimistic_data_false \<Rightarrow> None
      | optimistic_data_true v0 e \<Rightarrow> Some (s\<lparr>od_m := optimistic_data_true v e\<rparr>))"

definition optimistic_id_image_binding :: "('i, 'o, 'p) object_statements \<Rightarrow> binding_member option" where
  "optimistic_id_image_binding s =
     (case od_m s of optimistic_data_false \<Rightarrow> None
      | optimistic_data_true v e \<Rightarrow> Some od_id_image_binding_m)"

subsection \<open>Column counts\<close>

definition select_column_count :: "'a object_traits_scheme \<Rightarrow> size_t" where
  "select_column_count t = column_count t"

definition insert_column_count :: "'a object_traits_scheme \<Rightarrow> size_t" where
  "insert_column_count t =
     column_count t - inverse_column_count t - managed_optimistic_column_count t"

definition update_column_count :: "'a object_traits_scheme \<Rightarrow> size_t" where
  "update_column_count t =
     insert_column_count t - id_column_count t - readonly_column_count t"


subsection \<open>The cache in its environment\<close>

text \<open>
  What a call can observe or change besides the cache itself: the free store, and a log of
  what happened to delayed loads (a loader was invoked for an entry, or an entry was
  discarded by \<^verbatim>\<open>clear_delayed_\<close>). The log is an observer; no function reads it.
\<close>

datatype ('i, 'o, 'p) event =
    Loaded "('i, 'o, 'p) delayed_load"
  | Discarded "('i, 'o, 'p) delayed_load"

record ('i, 'o, 'p) machine =
  os :: "('i, 'o, 'p) object_statements"
  store :: heap
  events :: "('i, 'o, 'p) event list"

subsection \<open>Statements\<close>

definition persist_statement ::
  "'a object_traits_scheme \<Rightarrow> ('i, 'o, 'p) machine \<Rightarrow> addr \<times> ('i, 'o, 'p) machine" where
  "persist_statement t m =
     (case persist_m (os m) of
        None \<Rightarrow>
          (let (a, h) = new_object
                 (insert_statement (conn_m (os m)) (persist_statement_text t) insert_image_binding_m)
                 (store m)
           in (a, m\<lparr>os := (os m)\<lparr>persist_m := Some a\<rparr>, store := h\<rparr>))
      | Some a \<Rightarrow> (a, m))"

definition find_statement ::
  "'a object_traits_scheme \<Rightarrow> ('i, 'o, 'p) machine \<Rightarrow> addr \<times> ('i, 'o, 'p) machine" where
  "find_statement t m =
     (case find_m (os m) of
        None \<Rightarrow>
          (let (a, h) = new_object
                 (select_statement (conn_m (os m)) (find_statement_text t)
                    id_image_binding_m select_image_binding_m)
                 (store m)
           in (a, m\<lparr>os := (os m)\<lparr>find_m := Some a\<rparr>, store := h\<rparr>))
      | Some a \<Rightarrow> (a, m))"

definition update_statement ::
  "'a object_traits_scheme \<Rightarrow> ('i, 'o, 'p) machine \<Rightarrow> addr \<times> ('i, 'o, 'p) machine" where
  "update_statement t m =
     (case update_m (os m) of
        None \<Rightarrow>
          (let (a, h) = new_object
                 (update_statement_obj (conn_m (os m)) (update_statement_text t) update_image_binding_m)
                 (store m)
           in (a, m\<lparr>os := (os m)\<lparr>update_m := Some a\<rparr>, store := h\<rparr>))
      | Some a \<Rightarrow> (a, m))"

definition erase_statement ::
  "'a object_traits_scheme \<Rightarrow> ('i, 'o, 'p) machine \<Rightarrow> addr \<times> ('i, 'o, 'p) machine" where
  "erase_statement t m =
     (case erase_m (os m) of
        None \<Rightarrow>
          (let (a, h) = new_object
                 (delete_statement (conn_m (os m)) (erase_statement_text t) id_image_binding_m)
                 (store m)
           in (a, m\<lparr>os := (os m)\<lparr>erase_m := Some a\<rparr>, store := h\<rparr>))
      | Some a \<Rightarrow> (a, m))"

definition optimistic_erase_statement ::
  "'a object_traits_scheme \<Rightarrow> ('i, 'o, 'p) machine \<Rightarrow> (addr \<times> ('i, 'o, 'p) machine) option" where
  "optimistic_erase_statement t m =
     (case od_m (os m) of
        optimistic_data_false \<Rightarrow> None
      | optimistic_data_true v e \<Rightarrow>
          Some (case e of
                  None \<Rightarrow>
                    (let (a, h) = new_object
                           (delete_statement (conn_m (os m)) (optimistic_erase_statement_text t)
                              od_id_image_binding_m)
                           (store m)
                     in (a, m\<lparr>os := (os m)\<lparr>od_m := optimistic_data_true v (Some a)\<rparr>, store := h\<rparr>))
                | Some a \<Rightarrow> (a, m)))"

subsection \<open>The container statement cache\<close>

text \<open>
  \<^verbatim>\<open>allocate\<close> is allocator and deleter in one. \<^verbatim>\<open>deleter_\<close> only ever holds
  \<^verbatim>\<open>allocate\<close> and is read by the destructor alone, which calls it if \<^verbatim>\<open>p_\<close> is set.
\<close>

definition allocate ::
  "connection \<Rightarrow> binding_member \<Rightarrow> container_statement_cache_ptr \<times> heap
     \<Rightarrow> container_statement_cache_ptr \<times> heap" where
  "allocate c b ph =
     (case ph of (p, h) \<Rightarrow>
        (case p_m p of
           None \<Rightarrow> (let (a, h') = new_object (container_statement_cache c b) h
                    in (p\<lparr>p_m := Some a\<rparr>, h'))
         | Some a \<Rightarrow> (p, delete_object a h)))"

text \<open>\<^verbatim>\<open>get\<close> returns \<^verbatim>\<open>*p_\<close>: the result is the pointer it dereferences.\<close>

definition get ::
  "connection \<Rightarrow> binding_member \<Rightarrow> container_statement_cache_ptr \<times> heap
     \<Rightarrow> addr option \<times> container_statement_cache_ptr \<times> heap" where
  "get c b ph =
     (let (p', h') = (if p_m (fst ph) = None then allocate c b ph else ph)
      in (p_m p', p', h'))"

text \<open>The destructor passes two null pointers, which the deleting branch does not read.\<close>

definition container_statement_cache_ptr_dtor ::
  "container_statement_cache_ptr \<times> heap \<Rightarrow> container_statement_cache_ptr \<times> heap" where
  "container_statement_cache_ptr_dtor ph =
     (if p_m (fst ph) \<noteq> None then allocate 0 id_image_binding_m ph else ph)"

definition container_statment_cache ::
  "('i, 'o, 'p) machine \<Rightarrow> addr option \<times> ('i, 'o, 'p) machine" where
  "container_statment_cache m =
     (case get (conn_m (os m)) id_image_binding_m (container_statement_cache_m (os m), store m) of
        (r, p', h') \<Rightarrow> (r, m\<lparr>os := (os m)\<lparr>container_statement_cache_m := p'\<rparr>, store := h'\<rparr>))"


subsection \<open>Draining and clearing the delayed loads\<close>

text \<open>
  Modelled from the spec: \<^verbatim>\<open>clear_delayed_\<close> is defined in
  \<^verbatim>\<open>simple-object-statements.txx\<close>, which is not among the sources. The spec: it "drops all
  pending entries without invoking their loaders". Each entry it drops is logged as
  \<^const>\<open>Discarded\<close>.
\<close>

definition clear_delayed_m :: "('i, 'o, 'p) machine \<Rightarrow> ('i, 'o, 'p) machine" where
  "clear_delayed_m m =
     m\<lparr>os := (os m)\<lparr>delayed_m := []\<rparr>,
       events := events m @ map Discarded (delayed_m (os m))\<rparr>"

definition clear_delayed :: "('i, 'o, 'p) machine \<Rightarrow> ('i, 'o, 'p) machine" where
  "clear_delayed m = (if delayed_m (os m) \<noteq> [] then clear_delayed_m m else m)"

text \<open>
  \<^verbatim>\<open>swap_guard\<close> holds two references, to the cache and to the caller's local vector;
  the local vector is passed and returned. The constructor swaps it with \<^verbatim>\<open>delayed_\<close>,
  the destructor calls \<^verbatim>\<open>clear_delayed\<close> and swaps again.
\<close>

definition swap_guard_ctor ::
  "('i, 'o, 'p) delayed_load list \<Rightarrow> ('i, 'o, 'p) machine
     \<Rightarrow> ('i, 'o, 'p) delayed_load list \<times> ('i, 'o, 'p) machine" where
  "swap_guard_ctor dl m = (delayed_m (os m), m\<lparr>os := (os m)\<lparr>delayed_m := dl\<rparr>\<rparr>)"

definition swap_guard_dtor ::
  "('i, 'o, 'p) delayed_load list \<Rightarrow> ('i, 'o, 'p) machine
     \<Rightarrow> ('i, 'o, 'p) delayed_load list \<times> ('i, 'o, 'p) machine" where
  "swap_guard_dtor dl m =
     (let m1 = clear_delayed m
      in (delayed_m (os m1), m1\<lparr>os := (os m1)\<lparr>delayed_m := dl\<rparr>\<rparr>))"

text \<open>
  A loader is code of the caller. What it does to the cache is a parameter: the delayed
  loads it queues with \<^verbatim>\<open>delay_load\<close>, in order, and whether it then returns or throws.
\<close>

record ('i, 'o, 'p) loader_effect =
  queues :: "('i, 'o, 'p) delayed_load list"
  fails :: bool

type_synonym ('i, 'o, 'p) loaders = "('i, 'o, 'p) delayed_load \<Rightarrow> ('i, 'o, 'p) loader_effect"

definition delay_loads ::
  "('i, 'o, 'p) delayed_load list \<Rightarrow> ('i, 'o, 'p) object_statements \<Rightarrow> ('i, 'o, 'p) object_statements" where
  "delay_loads es s = foldl (\<lambda>s e. delay_load (id_dl e) (obj e) (pos e) (loader e) s) s es"

text \<open>
  Modelled from the spec: \<^verbatim>\<open>load_delayed_\<close> is defined in
  \<^verbatim>\<open>simple-object-statements.txx\<close>, which is not among the sources. The spec: the pending
  list is swapped into a local working list before processing begins, every entry is
  processed ("default loader if none supplied, else the custom one"), "in the order they
  were enqueued (FIFO)", an entry is "consumed and removed when drained", a failure of the
  statement layer propagates, and the guard runs "on every exit path, including failure".
  \<open>invoke_loader\<close> is one entry's processing, \<open>process_all\<close> the loop over the working
  list, which returns what is left of it.
\<close>

text \<open>
  Modelled from the spec: the processing of one entry in \<^verbatim>\<open>load_delayed_\<close> (not among
  the sources). The loader of the entry is invoked once; what it queues goes through
  \<^verbatim>\<open>delay_load\<close>.
\<close>

definition invoke_loader ::
  "('i, 'o, 'p) loaders \<Rightarrow> ('i, 'o, 'p) delayed_load \<Rightarrow> ('i, 'o, 'p) machine
     \<Rightarrow> ('i, 'o, 'p) machine outcome" where
  "invoke_loader run l m =
     (let m1 = m\<lparr>events := events m @ [Loaded l]\<rparr>;
          m2 = m1\<lparr>os := delay_loads (queues (run l)) (os m1)\<rparr>
      in if fails (run l) then Thrown m2 else Returned m2)"

text \<open>
  Modelled from the spec: the loop of \<^verbatim>\<open>load_delayed_\<close> (not among the sources). Entries
  are taken from the front of the working list, in the order they were queued; each is
  removed and then processed; a loader that throws ends the loop.
\<close>

fun process_all ::
  "('i, 'o, 'p) loaders \<Rightarrow> ('i, 'o, 'p) delayed_load list \<Rightarrow> ('i, 'o, 'p) machine
     \<Rightarrow> ('i, 'o, 'p) delayed_load list \<times> ('i, 'o, 'p) machine outcome" where
  "process_all run [] m = ([], Returned m)"
| "process_all run (l # dls) m =
     (case invoke_loader run l m of
        Returned m' \<Rightarrow> process_all run dls m'
      | Thrown m' \<Rightarrow> (dls, Thrown m')
      | Assertion_failed \<Rightarrow> (dls, Assertion_failed))"

text \<open>
  Modelled from the spec: \<^verbatim>\<open>load_delayed_\<close> (not among the sources). The guard is
  constructed over an empty local list before the loop and destructed on both exits.
\<close>

definition load_delayed_m ::
  "('i, 'o, 'p) loaders \<Rightarrow> ('i, 'o, 'p) machine \<Rightarrow> ('i, 'o, 'p) machine outcome" where
  "load_delayed_m run m =
     (let (dls, m1) = swap_guard_ctor [] m;
          (dls', r) = process_all run dls m1
      in case r of
           Returned m2 \<Rightarrow> Returned (snd (swap_guard_dtor dls' m2))
         | Thrown m2 \<Rightarrow> Thrown (snd (swap_guard_dtor dls' m2))
         | Assertion_failed \<Rightarrow> Assertion_failed)"

definition load_delayed ::
  "('i, 'o, 'p) loaders \<Rightarrow> ('i, 'o, 'p) machine \<Rightarrow> ('i, 'o, 'p) machine outcome" where
  "load_delayed run m =
     (if \<not> locked (os m) then Assertion_failed
      else if delayed_m (os m) \<noteq> [] then load_delayed_m run m
      else Returned m)"

subsection \<open>The automatic lock\<close>

text \<open>
  Modelled from the spec: the members of \<^verbatim>\<open>auto_lock\<close> are declared in the header and
  defined in \<^verbatim>\<open>simple-object-statements.ixx\<close>, which is not among the sources. The spec:
  "attempting to lock an already-locked cache does not fault -- it instead reports itself
  as not holding the lock (locked() == false)"; "attempting to lock a free cache succeeds
  and, on destruction, unlocks and clears any still-pending delayed loads"; on an
  already-locked cache it "performs no action on destruction". The header's comment on
  \<^verbatim>\<open>unlock\<close>: "Unlock the statemens." The member \<^verbatim>\<open>locked_\<close> of \<^verbatim>\<open>auto_lock\<close> is
  \<open>al_locked_m\<close>; the reference \<^verbatim>\<open>s_\<close> is the cache that is passed.
\<close>

record auto_lock =
  al_locked_m :: bool

text \<open>
  Modelled from the spec: the constructor of \<^verbatim>\<open>auto_lock\<close> (not among the sources). It
  locks a free cache and holds the lock; on a locked cache it does nothing and holds none.
\<close>

definition auto_lock_ctor ::
  "('i, 'o, 'p) machine \<Rightarrow> (auto_lock \<times> ('i, 'o, 'p) machine) outcome" where
  "auto_lock_ctor m =
     (if \<not> locked (os m) then
        (case lock (os m) of
           Returned s \<Rightarrow> Returned (\<lparr>al_locked_m = True\<rparr>, m\<lparr>os := s\<rparr>)
         | Thrown s \<Rightarrow> Thrown (\<lparr>al_locked_m = False\<rparr>, m\<lparr>os := s\<rparr>)
         | Assertion_failed \<Rightarrow> Assertion_failed)
      else Returned (\<lparr>al_locked_m = False\<rparr>, m))"

text \<open>
  Modelled from the spec: \<^verbatim>\<open>auto_lock::locked\<close> (not among the sources), which reports
  whether this object holds the lock.
\<close>

definition auto_lock_locked :: "auto_lock \<Rightarrow> bool" where
  "auto_lock_locked al = al_locked_m al"

text \<open>
  Modelled from the spec: \<^verbatim>\<open>auto_lock::unlock\<close> (not among the sources). It unlocks the
  cache, after which this object no longer holds the lock.
\<close>

definition auto_lock_unlock ::
  "auto_lock \<Rightarrow> ('i, 'o, 'p) machine \<Rightarrow> (auto_lock \<times> ('i, 'o, 'p) machine) outcome" where
  "auto_lock_unlock al m =
     (case unlock (os m) of
        Returned s \<Rightarrow> Returned (al\<lparr>al_locked_m := False\<rparr>, m\<lparr>os := s\<rparr>)
      | Thrown s \<Rightarrow> Thrown (al, m\<lparr>os := s\<rparr>)
      | Assertion_failed \<Rightarrow> Assertion_failed)"

text \<open>
  Modelled from the spec: the destructor of \<^verbatim>\<open>auto_lock\<close> (not among the sources). If the
  lock is held it unlocks the cache and clears the delayed loads; otherwise it does nothing.
\<close>

definition auto_lock_dtor ::
  "auto_lock \<Rightarrow> ('i, 'o, 'p) machine \<Rightarrow> ('i, 'o, 'p) machine outcome" where
  "auto_lock_dtor al m =
     (if al_locked_m al then
        (case unlock (os m) of
           Returned s \<Rightarrow> Returned (clear_delayed (m\<lparr>os := s\<rparr>))
         | Thrown s \<Rightarrow> Thrown (m\<lparr>os := s\<rparr>)
         | Assertion_failed \<Rightarrow> Assertion_failed)
      else Returned m)"


subsection \<open>Sequences of calls\<close>

text \<open>
  The members of the cache that change state, as operations, and a caller that makes a
  sequence of calls and stops at the first one that does not return. The getters change
  nothing and are left out. A call that cannot be instantiated for the type is \<open>None\<close>.
\<close>

datatype ('i, 'o, 'p) op =
    Lock
  | Unlock
  | Delay_load 'i 'o 'p loader_function
  | Load_delayed
  | Clear_delayed
  | Select_image_version_set size_t
  | Insert_image_version_set size_t
  | Update_image_version_set size_t
  | Update_id_image_version_set size_t
  | Id_image_version_set size_t
  | Optimistic_id_image_version_set size_t
  | Persist_statement
  | Find_statement
  | Update_statement
  | Erase_statement
  | Optimistic_erase_statement
  | Container_statment_cache

definition with_os ::
  "('i, 'o, 'p) machine \<Rightarrow> ('i, 'o, 'p) object_statements outcome \<Rightarrow> ('i, 'o, 'p) machine outcome" where
  "with_os m r =
     (case r of
        Returned s \<Rightarrow> Returned (m\<lparr>os := s\<rparr>)
      | Thrown s \<Rightarrow> Thrown (m\<lparr>os := s\<rparr>)
      | Assertion_failed \<Rightarrow> Assertion_failed)"

fun call ::
  "('i, 'o, 'p) loaders \<Rightarrow> 'a object_traits_scheme \<Rightarrow> ('i, 'o, 'p) op \<Rightarrow> ('i, 'o, 'p) machine
     \<Rightarrow> ('i, 'o, 'p) machine outcome option" where
  "call run t Lock m = Some (with_os m (lock (os m)))"
| "call run t Unlock m = Some (with_os m (unlock (os m)))"
| "call run t (Delay_load i ob p l) m = Some (Returned (m\<lparr>os := delay_load i ob p l (os m)\<rparr>))"
| "call run t Load_delayed m = Some (load_delayed run m)"
| "call run t Clear_delayed m = Some (Returned (clear_delayed m))"
| "call run t (Select_image_version_set v) m = Some (Returned (m\<lparr>os := select_image_version_set v (os m)\<rparr>))"
| "call run t (Insert_image_version_set v) m = Some (Returned (m\<lparr>os := insert_image_version_set v (os m)\<rparr>))"
| "call run t (Update_image_version_set v) m = Some (Returned (m\<lparr>os := update_image_version_set v (os m)\<rparr>))"
| "call run t (Update_id_image_version_set v) m =
     Some (Returned (m\<lparr>os := update_id_image_version_set v (os m)\<rparr>))"
| "call run t (Id_image_version_set v) m = Some (Returned (m\<lparr>os := id_image_version_set v (os m)\<rparr>))"
| "call run t (Optimistic_id_image_version_set v) m =
     map_option (\<lambda>s. Returned (m\<lparr>os := s\<rparr>)) (optimistic_id_image_version_set v (os m))"
| "call run t Persist_statement m = Some (Returned (snd (persist_statement t m)))"
| "call run t Find_statement m = Some (Returned (snd (find_statement t m)))"
| "call run t Update_statement m = Some (Returned (snd (update_statement t m)))"
| "call run t Erase_statement m = Some (Returned (snd (erase_statement t m)))"
| "call run t Optimistic_erase_statement m =
     map_option (\<lambda>r. Returned (snd r)) (optimistic_erase_statement t m)"
| "call run t Container_statment_cache m = Some (Returned (snd (container_statment_cache m)))"

fun run_ops ::
  "('i, 'o, 'p) loaders \<Rightarrow> 'a object_traits_scheme \<Rightarrow> ('i, 'o, 'p) op list \<Rightarrow> ('i, 'o, 'p) machine
     \<Rightarrow> ('i, 'o, 'p) machine outcome option" where
  "run_ops run t [] m = Some (Returned m)"
| "run_ops run t (x # xs) m =
     (case call run t x m of
        Some (Returned m') \<Rightarrow> run_ops run t xs m'
      | r \<Rightarrow> r)"

subsection \<open>Notions the properties are stated with\<close>

text \<open>The entries whose loader was invoked, in the order of the invocations.\<close>

fun loaded_entries :: "('i, 'o, 'p) event list \<Rightarrow> ('i, 'o, 'p) delayed_load list" where
  "loaded_entries [] = []"
| "loaded_entries (Loaded e # evs) = e # loaded_entries evs"
| "loaded_entries (Discarded e # evs) = loaded_entries evs"

text \<open>The entries that were discarded without a loader being invoked.\<close>

fun discarded_entries :: "('i, 'o, 'p) event list \<Rightarrow> ('i, 'o, 'p) delayed_load list" where
  "discarded_entries [] = []"
| "discarded_entries (Loaded e # evs) = discarded_entries evs"
| "discarded_entries (Discarded e # evs) = e # discarded_entries evs"

text \<open>
  A working list splits at the first entry whose loader throws: the entries up to and
  including it are processed, the ones behind it are not.
\<close>

fun processed :: "('i, 'o, 'p) loaders \<Rightarrow> ('i, 'o, 'p) delayed_load list \<Rightarrow> ('i, 'o, 'p) delayed_load list" where
  "processed run [] = []"
| "processed run (l # dls) = l # (if fails (run l) then [] else processed run dls)"

fun unprocessed :: "('i, 'o, 'p) loaders \<Rightarrow> ('i, 'o, 'p) delayed_load list \<Rightarrow> ('i, 'o, 'p) delayed_load list" where
  "unprocessed run [] = []"
| "unprocessed run (l # dls) = (if fails (run l) then dls else unprocessed run dls)"

text \<open>What the loaders of a list of entries queue, in order.\<close>

definition queued_by :: "('i, 'o, 'p) loaders \<Rightarrow> ('i, 'o, 'p) delayed_load list \<Rightarrow> ('i, 'o, 'p) delayed_load list" where
  "queued_by run ls = concat (map (\<lambda>l. queues (run l)) ls)"

text \<open>
  The state after the loop over a working list: the processed entries' loaders are logged
  as invoked, and what they queued stands at the end of the cache's own list.
\<close>

definition after_processing ::
  "('i, 'o, 'p) loaders \<Rightarrow> ('i, 'o, 'p) delayed_load list \<Rightarrow> ('i, 'o, 'p) machine \<Rightarrow> ('i, 'o, 'p) machine" where
  "after_processing run dls m =
     m\<lparr>os := (os m)\<lparr>delayed_m := delayed_m (os m) @ queued_by run (processed run dls)\<rparr>,
       events := events m @ map Loaded (processed run dls)\<rparr>"

text \<open>The call of \<^verbatim>\<open>delay_load\<close> that queues a given entry.\<close>

definition delay_load_op :: "('i, 'o, 'p) delayed_load \<Rightarrow> ('i, 'o, 'p) op" where
  "delay_load_op e = Delay_load (id_dl e) (obj e) (pos e) (loader e)"

text \<open>
  The six lazily built objects, the pointer member that holds each, what \<^verbatim>\<open>new\<close>
  constructs for it, and its accessor.
\<close>

datatype slot =
    Persist_slot
  | Find_slot
  | Update_slot
  | Erase_slot
  | Optimistic_erase_slot
  | Container_slot

fun pointer :: "slot \<Rightarrow> ('i, 'o, 'p) object_statements \<Rightarrow> addr option" where
  "pointer Persist_slot s = persist_m s"
| "pointer Find_slot s = find_m s"
| "pointer Update_slot s = update_m s"
| "pointer Erase_slot s = erase_m s"
| "pointer Optimistic_erase_slot s =
     (case od_m s of optimistic_data_false \<Rightarrow> None | optimistic_data_true v e \<Rightarrow> e)"
| "pointer Container_slot s = p_m (container_statement_cache_m s)"

fun constructed :: "'a object_traits_scheme \<Rightarrow> slot \<Rightarrow> connection \<Rightarrow> heap_object" where
  "constructed t Persist_slot c = insert_statement c (persist_statement_text t) insert_image_binding_m"
| "constructed t Find_slot c =
     select_statement c (find_statement_text t) id_image_binding_m select_image_binding_m"
| "constructed t Update_slot c = update_statement_obj c (update_statement_text t) update_image_binding_m"
| "constructed t Erase_slot c = delete_statement c (erase_statement_text t) id_image_binding_m"
| "constructed t Optimistic_erase_slot c =
     delete_statement c (optimistic_erase_statement_text t) od_id_image_binding_m"
| "constructed t Container_slot c = container_statement_cache c id_image_binding_m"

fun accessor ::
  "'a object_traits_scheme \<Rightarrow> slot \<Rightarrow> ('i, 'o, 'p) machine \<Rightarrow> (addr option \<times> ('i, 'o, 'p) machine) option" where
  "accessor t Persist_slot m = Some (map_prod Some (\<lambda>x. x) (persist_statement t m))"
| "accessor t Find_slot m = Some (map_prod Some (\<lambda>x. x) (find_statement t m))"
| "accessor t Update_slot m = Some (map_prod Some (\<lambda>x. x) (update_statement t m))"
| "accessor t Erase_slot m = Some (map_prod Some (\<lambda>x. x) (erase_statement t m))"
| "accessor t Optimistic_erase_slot m =
     map_option (map_prod Some (\<lambda>x. x)) (optimistic_erase_statement t m)"
| "accessor t Container_slot m = Some (container_statment_cache m)"

text \<open>
  The stored image versions, and the calls that do not lower one: every call but a
  version setter whose argument is below the stored version.
\<close>

definition image_versions :: "('i, 'o, 'p) object_statements \<Rightarrow> size_t list" where
  "image_versions s =
     [select_image_version s, insert_image_version s, update_image_version s,
      update_id_image_version s, id_image_version s]
     @ (case optimistic_id_image_version s of None \<Rightarrow> [] | Some v \<Rightarrow> [v])"

fun not_lowering :: "('i, 'o, 'p) op \<Rightarrow> ('i, 'o, 'p) object_statements \<Rightarrow> bool" where
  "not_lowering (Select_image_version_set v) s = (select_image_version s \<le> v)"
| "not_lowering (Insert_image_version_set v) s = (insert_image_version s \<le> v)"
| "not_lowering (Update_image_version_set v) s = (update_image_version s \<le> v)"
| "not_lowering (Update_id_image_version_set v) s = (update_id_image_version s \<le> v)"
| "not_lowering (Id_image_version_set v) s = (id_image_version s \<le> v)"
| "not_lowering (Optimistic_id_image_version_set v) s =
     (case optimistic_id_image_version s of None \<Rightarrow> True | Some v0 \<Rightarrow> v0 \<le> v)"
| "not_lowering x s = True"

fun not_lowering_run ::
  "('i, 'o, 'p) loaders \<Rightarrow> 'a object_traits_scheme \<Rightarrow> ('i, 'o, 'p) op list \<Rightarrow> ('i, 'o, 'p) machine \<Rightarrow> bool" where
  "not_lowering_run run t [] m = True"
| "not_lowering_run run t (x # xs) m =
     (not_lowering x (os m) \<and>
      (case call run t x m of
         Some (Returned m') \<Rightarrow> not_lowering_run run t xs m'
       | r \<Rightarrow> True))"

text \<open>
  The member \<^verbatim>\<open>od_\<close> of the cache of a mapped type has the type
  \<^verbatim>\<open>optimistic_data<T, managed_optimistic_column_count != 0>\<close>.
\<close>

definition instance_of :: "'a object_traits_scheme \<Rightarrow> ('i, 'o, 'p) object_statements \<Rightarrow> bool" where
  "instance_of t s =
     (case od_m s of
        optimistic_data_false \<Rightarrow> \<not> (managed_optimistic_column_count t \<noteq> 0)
      | optimistic_data_true v e \<Rightarrow> managed_optimistic_column_count t \<noteq> 0)"

subsection \<open>Concrete instances\<close>

text \<open>A mapped type with ten columns, and a cache of it as its constructor leaves it.\<close>

definition example_traits :: object_traits where
  "example_traits =
     \<lparr>column_count = 10, inverse_column_count = 2, managed_optimistic_column_count = 1,
      id_column_count = 1, readonly_column_count = 1,
      persist_statement_text = ''INSERT'', find_statement_text = ''SELECT'',
      update_statement_text = ''UPDATE'', erase_statement_text = ''DELETE'',
      optimistic_erase_statement_text = ''DELETE WHERE version''\<rparr>"

definition example_cache :: "(nat, nat, nat) object_statements" where
  "example_cache =
     \<lparr>conn_m = 1, locked_m = False,
      container_statement_cache_m = \<lparr>p_m = None\<rparr>,
      select_image_version_m = 0, insert_image_version_m = 0, update_image_version_m = 0,
      update_id_image_version_m = 0, id_image_version_m = 0,
      od_m = optimistic_data_true 0 None,
      persist_m = None, find_m = None, update_m = None, erase_m = None,
      delayed_m = []\<rparr>"

definition example_machine :: "(nat, nat, nat) machine" where
  "example_machine = \<lparr>os = example_cache, store = [], events = []\<rparr>"

text \<open>The same cache locked, and locked with two delayed loads pending.\<close>

definition locked_machine :: "(nat, nat, nat) machine" where
  "locked_machine = example_machine\<lparr>os := example_cache\<lparr>locked_m := True\<rparr>\<rparr>"

definition entry_a :: "(nat, nat, nat) delayed_load" where
  "entry_a = \<lparr>id_dl = 1, obj = 10, pos = 0, loader = 0\<rparr>"

definition entry_b :: "(nat, nat, nat) delayed_load" where
  "entry_b = \<lparr>id_dl = 2, obj = 20, pos = 1, loader = 7\<rparr>"

definition entry_c :: "(nat, nat, nat) delayed_load" where
  "entry_c = \<lparr>id_dl = 3, obj = 30, pos = 2, loader = 9\<rparr>"

definition entry_d :: "(nat, nat, nat) delayed_load" where
  "entry_d = \<lparr>id_dl = 4, obj = 40, pos = 3, loader = 0\<rparr>"

text \<open>
  Loaders: the function at 7 queues a further delayed load (\<open>entry_d\<close>) and returns, the
  one at 9 throws, every other one, the default loader too, returns at once.
\<close>

definition example_loaders :: "(nat, nat, nat) loaders" where
  "example_loaders l =
     (if loader l = 7 then \<lparr>queues = [entry_d], fails = False\<rparr>
      else if loader l = 9 then \<lparr>queues = [], fails = True\<rparr>
      else \<lparr>queues = [], fails = False\<rparr>)"

definition pending_machine :: "(nat, nat, nat) machine" where
  "pending_machine =
     example_machine\<lparr>os := example_cache\<lparr>locked_m := True, delayed_m := [entry_a, entry_b]\<rparr>\<rparr>"

text \<open>A mapped type without a managed column, and a cache of it.\<close>

definition plain_traits :: object_traits where
  "plain_traits = example_traits\<lparr>managed_optimistic_column_count := 0\<rparr>"

definition plain_machine :: "(nat, nat, nat) machine" where
  "plain_machine = example_machine\<lparr>os := example_cache\<lparr>od_m := optimistic_data_false\<rparr>\<rparr>"

section \<open>Properties\<close>

subsection \<open>Auxiliary facts\<close>

lemmas accessor_defs =
  persist_statement_def find_statement_def update_statement_def erase_statement_def
  optimistic_erase_statement_def container_statment_cache_def get_def allocate_def new_object_def

lemmas version_defs =
  select_image_version_def insert_image_version_def update_image_version_def
  update_id_image_version_def id_image_version_def optimistic_id_image_version_def
  select_image_version_set_def insert_image_version_set_def update_image_version_set_def
  update_id_image_version_set_def id_image_version_set_def optimistic_id_image_version_set_def

lemmas example_defs =
  example_traits_def example_cache_def example_machine_def locked_machine_def pending_machine_def
  entry_a_def entry_b_def entry_c_def entry_d_def example_loaders_def plain_traits_def
  plain_machine_def

lemma delay_load_entry:
  "delay_load (id_dl e) (obj e) (pos e) (loader e) s = s\<lparr>delayed_m := delayed_m s @ [e]\<rparr>"
  by (simp add: delay_load_def)

lemma foldl_delay_load:
  "foldl (\<lambda>s e. delay_load (id_dl e) (obj e) (pos e) (loader e) s) s es
     = s\<lparr>delayed_m := delayed_m s @ es\<rparr>"
  by (induction es arbitrary: s) (simp_all add: delay_load_entry)

lemma delay_loads_append: "delay_loads es s = s\<lparr>delayed_m := delayed_m s @ es\<rparr>"
  by (simp add: delay_loads_def foldl_delay_load)

lemma loaded_entries_append [simp]:
  "loaded_entries (xs @ ys) = loaded_entries xs @ loaded_entries ys"
  by (induction xs rule: loaded_entries.induct) simp_all

lemma discarded_entries_append [simp]:
  "discarded_entries (xs @ ys) = discarded_entries xs @ discarded_entries ys"
  by (induction xs rule: discarded_entries.induct) simp_all

lemma loaded_entries_map [simp]:
  "loaded_entries (map Loaded es) = es" "loaded_entries (map Discarded es) = []"
  by (induction es) simp_all

lemma discarded_entries_map [simp]:
  "discarded_entries (map Loaded es) = []" "discarded_entries (map Discarded es) = es"
  by (induction es) simp_all


lemma processed_all_ok:
  "\<forall>l\<in>set dls. \<not> fails (run l) \<Longrightarrow> processed run dls = dls \<and> unprocessed run dls = []"
  by (induction dls) simp_all

lemma process_all_eq:
  "process_all run dls m =
     (unprocessed run dls,
      (if \<exists>l\<in>set dls. fails (run l) then Thrown else Returned) (after_processing run dls m))"
proof (induction dls arbitrary: m)
  case Nil
  show ?case by (simp add: after_processing_def queued_by_def)
next
  case (Cons l dls)
  show ?case
    by (simp add: Cons.IH invoke_loader_def Let_def delay_loads_append after_processing_def queued_by_def)
qed

lemma load_delayed_eq:
  assumes "locked (os m)"
  shows "load_delayed run m =
     (if \<exists>l\<in>set (delayed_m (os m)). fails (run l) then Thrown else Returned)
       (m\<lparr>os := (os m)\<lparr>delayed_m := unprocessed run (delayed_m (os m))\<rparr>,
          events := events m @ map Loaded (processed run (delayed_m (os m)))
                    @ map Discarded (queued_by run (processed run (delayed_m (os m))))\<rparr>)"
proof (cases "delayed_m (os m)")
  case Nil
  with assms show ?thesis by (simp add: load_delayed_def queued_by_def)
next
  case (Cons l dls)
  with assms show ?thesis
    by (simp add: load_delayed_def load_delayed_m_def swap_guard_ctor_def swap_guard_dtor_def
        process_all_eq after_processing_def clear_delayed_def clear_delayed_m_def Let_def)
qed

lemma load_delayed_frame:
  assumes "load_delayed run m = Returned m' \<or> load_delayed run m = Thrown m'"
  shows "\<exists>d ev. m' = m\<lparr>os := (os m)\<lparr>delayed_m := d\<rparr>, events := ev\<rparr>"
proof (cases "locked (os m)")
  case True
  from assms show ?thesis
    unfolding load_delayed_eq [OF True] by (auto split: if_splits)
next
  case False
  with assms show ?thesis by (simp add: load_delayed_def)
qed

lemma call_delay_load_op:
  "call run t (delay_load_op e) m = Some (Returned (m\<lparr>os := (os m)\<lparr>delayed_m := delayed_m (os m) @ [e]\<rparr>\<rparr>))"
  by (simp add: delay_load_op_def delay_load_entry)

lemma run_ops_delay_loads:
  "run_ops run t (map delay_load_op es) m = Some (Returned (m\<lparr>os := delay_loads es (os m)\<rparr>))"
proof (induction es arbitrary: m)
  case Nil
  show ?case by (simp add: delay_loads_append)
next
  case (Cons e es)
  show ?case
    by (simp add: Cons.IH call_delay_load_op delay_loads_append)
qed

lemma call_versions:
  assumes "call run t x m = Some (Returned m') \<or> call run t x m = Some (Thrown m')"
    and "not_lowering x (os m)"
  shows "list_all2 (\<le>) (image_versions (os m)) (image_versions (os m'))"
proof (cases x)
  case Load_delayed
  with assms(1) have "load_delayed run m = Returned m' \<or> load_delayed run m = Thrown m'" by simp
  from load_delayed_frame [OF this] obtain d ev
    where "m' = m\<lparr>os := (os m)\<lparr>delayed_m := d\<rparr>, events := ev\<rparr>" by blast
  then have "image_versions (os m') = image_versions (os m)"
    by (simp add: image_versions_def version_defs)
  then show ?thesis by (simp add: list.rel_refl)
qed (use assms in \<open>auto simp: image_versions_def version_defs accessor_defs with_os_def lock_def
      unlock_def delay_load_def clear_delayed_def clear_delayed_m_def Let_def
      split: if_splits option.splits optimistic_data.splits prod.splits\<close>)

lemma accessor_first:
  assumes "accessor t k m = Some (r, m1)"
  shows "r \<noteq> None \<and> pointer k (os m1) = r \<and>
     (pointer k (os m) = None \<longrightarrow>
        store m1 = store m @ [Some (constructed t k (conn_m (os m)))] \<and> r = Some (length (store m))) \<and>
     (pointer k (os m) \<noteq> None \<longrightarrow> m1 = m \<and> r = pointer k (os m))"
proof (cases "pointer k (os m)")
  case None
  with assms show ?thesis
    by (cases k) (auto simp: accessor_defs Let_def split: optimistic_data.splits)
next
  case (Some a)
  with assms show ?thesis
    by (cases k) (auto simp: accessor_defs Let_def split: optimistic_data.splits intro: sym)
qed

lemma accessor_again:
  assumes "pointer k (os m) = Some a"
  shows "accessor t k m = Some (Some a, m)"
  using assms
  by (cases k)
     (auto simp: accessor_defs Let_def split: option.splits optimistic_data.splits prod.splits if_splits)

lemma call_pointer:
  assumes "call run t x m = Some (Returned m')" and "pointer k (os m) = Some a"
  shows "pointer k (os m') = Some a"
proof (cases x)
  case Load_delayed
  with assms(1) have "load_delayed run m = Returned m' \<or> load_delayed run m = Thrown m'" by simp
  from load_delayed_frame [OF this] obtain d ev
    where "m' = m\<lparr>os := (os m)\<lparr>delayed_m := d\<rparr>, events := ev\<rparr>" by blast
  with assms(2) show ?thesis by (cases k) simp_all
qed (use assms in \<open>cases k; auto simp: version_defs accessor_defs with_os_def lock_def
      unlock_def delay_load_def clear_delayed_def clear_delayed_m_def Let_def
      split: if_splits option.splits optimistic_data.splits prod.splits\<close>)+

lemma run_ops_pointer:
  assumes "run_ops run t xs m = Some (Returned m')" and "pointer k (os m) = Some a"
  shows "pointer k (os m') = Some a"
  using assms
proof (induction xs arbitrary: m)
  case Nil
  then show ?case by simp
next
  case (Cons x xs)
  from Cons.prems(1) obtain m1 where c: "call run t x m = Some (Returned m1)"
    and r: "run_ops run t xs m1 = Some (Returned m')"
    by (auto split: option.splits outcome.splits)
  from call_pointer [OF c Cons.prems(2)] have "pointer k (os m1) = Some a" .
  from Cons.IH [OF r this] show ?case .
qed

subsection \<open>The delayed-load queue\<close>

text \<open>
  C1. Delayed loads are loaded first in, first out. From a locked cache, a sequence of
  \<^verbatim>\<open>delay_load\<close> calls returns with exactly the given entries appended to the pending
  list, one per call and in the order of the calls. If no loader of a pending entry throws,
  \<^verbatim>\<open>load_delayed\<close> then returns, the pending list is empty, and the loaders invoked during
  the call are those of the pending entries, each once, in the order the entries were
  queued. \<^verbatim>\<open>clear_delayed\<close> empties the pending list and invokes no loader.
\<close>

theorem delayed_loads_fifo:
  assumes "locked (os m)"
    and "\<forall>l\<in>set (delayed_m (os m) @ es). \<not> fails (run l)"
  shows "\<exists>m1 m2.
      run_ops run t (map delay_load_op es) m = Some (Returned m1) \<and>
      delayed_m (os m1) = delayed_m (os m) @ es \<and>
      call run t Load_delayed m1 = Some (Returned m2) \<and>
      delayed_m (os m2) = [] \<and>
      loaded_entries (events m2) = loaded_entries (events m) @ delayed_m (os m) @ es \<and>
      delayed_m (os (clear_delayed m1)) = [] \<and>
      loaded_entries (events (clear_delayed m1)) = loaded_entries (events m1)"
proof -
  define m1 where "m1 = m\<lparr>os := delay_loads es (os m)\<rparr>"
  have q: "delayed_m (os m1) = delayed_m (os m) @ es"
    by (simp add: m1_def delay_loads_append)
  have l1: "locked (os m1)"
    using assms(1) by (simp add: m1_def delay_loads_append locked_def)
  have ok: "\<forall>l\<in>set (delayed_m (os m1)). \<not> fails (run l)"
    using assms(2) by (simp add: q)
  have ev: "events m1 = events m" by (simp add: m1_def)
  define m2 where "m2 = m1\<lparr>os := (os m1)\<lparr>delayed_m := []\<rparr>,
      events := events m1 @ map Loaded (delayed_m (os m1))
                @ map Discarded (queued_by run (delayed_m (os m1)))\<rparr>"
  have "load_delayed run m1 = Returned m2"
    using ok processed_all_ok [OF ok] by (simp add: load_delayed_eq [OF l1] m2_def)
  moreover have "delayed_m (os m2) = []" by (simp add: m2_def)
  moreover have "loaded_entries (events m2) = loaded_entries (events m) @ delayed_m (os m) @ es"
    by (simp add: m2_def q ev)
  moreover have "delayed_m (os (clear_delayed m1)) = []"
    by (simp add: clear_delayed_def clear_delayed_m_def)
  moreover have "loaded_entries (events (clear_delayed m1)) = loaded_entries (events m1)"
    by (simp add: clear_delayed_def clear_delayed_m_def)
  ultimately show ?thesis
    using run_ops_delay_loads [of run t es m] q by (simp add: m1_def)
qed

theorem delayed_loads_fifo_witness:
  "locked (os locked_machine) \<and>
   delayed_m (os locked_machine) @ [entry_a, entry_b] = [entry_a, entry_b] \<and>
   \<not> fails (example_loaders entry_a) \<and> \<not> fails (example_loaders entry_b) \<and>
   (\<exists>m1 m2.
      run_ops example_loaders example_traits (map delay_load_op [entry_a, entry_b]) locked_machine
        = Some (Returned m1) \<and>
      delayed_m (os m1) = [entry_a, entry_b] \<and>
      call example_loaders example_traits Load_delayed m1 = Some (Returned m2) \<and>
      delayed_m (os m2) = [] \<and>
      loaded_entries (events m2) = [entry_a, entry_b])"
proof -
  have h1: "locked (os locked_machine)"
    by (simp add: example_defs locked_def)
  have h2: "\<forall>l\<in>set (delayed_m (os locked_machine) @ [entry_a, entry_b]). \<not> fails (example_loaders l)"
    by (simp add: example_defs)
  have e: "delayed_m (os locked_machine) = []" "events locked_machine = []"
    by (simp_all add: example_defs)
  from delayed_loads_fifo [OF h1 h2, of example_traits] obtain m1 m2 where
    "run_ops example_loaders example_traits (map delay_load_op [entry_a, entry_b]) locked_machine
       = Some (Returned m1)"
    "delayed_m (os m1) = delayed_m (os locked_machine) @ [entry_a, entry_b]"
    "call example_loaders example_traits Load_delayed m1 = Some (Returned m2)"
    "delayed_m (os m2) = []"
    "loaded_entries (events m2)
       = loaded_entries (events locked_machine) @ delayed_m (os locked_machine) @ [entry_a, entry_b]"
    by blast
  moreover have "\<not> fails (example_loaders entry_a)" "\<not> fails (example_loaders entry_b)"
    by (simp_all add: example_defs)
  ultimately show ?thesis using h1 e by auto
qed




subsection \<open>Locking\<close>

text \<open>
  C3. The automatic lock. Constructed on a locked cache it returns without fault, leaves
  the cache as it is and reports \<open>locked() = false\<close>, and its destructor then changes
  nothing. Constructed on an unlocked cache it locks the cache and reports
  \<open>locked() = true\<close>; its destructor, while the lock is still held, unlocks the cache and
  empties the pending list, discarding every entry and invoking no loader. After its
  \<^verbatim>\<open>unlock\<close> the lock is no longer held.
\<close>

theorem auto_lock_behaviour:
  "(locked (os m) \<longrightarrow>
      auto_lock_ctor m = Returned (\<lparr>al_locked_m = False\<rparr>, m) \<and>
      \<not> auto_lock_locked \<lparr>al_locked_m = False\<rparr> \<and>
      auto_lock_dtor \<lparr>al_locked_m = False\<rparr> m' = Returned m') \<and>
   (\<not> locked (os m) \<longrightarrow>
      auto_lock_ctor m = Returned (\<lparr>al_locked_m = True\<rparr>, m\<lparr>os := (os m)\<lparr>locked_m := True\<rparr>\<rparr>) \<and>
      auto_lock_locked \<lparr>al_locked_m = True\<rparr>) \<and>
   (locked (os m') \<longrightarrow>
      (\<exists>m''. auto_lock_dtor \<lparr>al_locked_m = True\<rparr> m' = Returned m'' \<and>
         \<not> locked (os m'') \<and>
         delayed_m (os m'') = [] \<and>
         loaded_entries (events m'') = loaded_entries (events m') \<and>
         discarded_entries (events m'') = discarded_entries (events m') @ delayed_m (os m') \<and>
         store m'' = store m') \<and>
      auto_lock_unlock \<lparr>al_locked_m = True\<rparr> m'
        = Returned (\<lparr>al_locked_m = False\<rparr>, m'\<lparr>os := (os m')\<lparr>locked_m := False\<rparr>\<rparr>))"
  by (auto simp: auto_lock_ctor_def auto_lock_dtor_def auto_lock_locked_def auto_lock_unlock_def
      lock_def unlock_def locked_def clear_delayed_def clear_delayed_m_def)

theorem auto_lock_behaviour_witness:
  "\<not> locked (os example_machine) \<and>
   auto_lock_ctor example_machine = Returned (\<lparr>al_locked_m = True\<rparr>, locked_machine) \<and>
   locked (os pending_machine) \<and>
   (\<exists>m''. auto_lock_dtor \<lparr>al_locked_m = True\<rparr> pending_machine = Returned m'' \<and>
      \<not> locked (os m'') \<and> delayed_m (os m'') = [] \<and>
      loaded_entries (events m'') = [] \<and>
      discarded_entries (events m'') = [entry_a, entry_b]) \<and>
   auto_lock_ctor pending_machine = Returned (\<lparr>al_locked_m = False\<rparr>, pending_machine) \<and>
   auto_lock_dtor \<lparr>al_locked_m = False\<rparr> pending_machine = Returned pending_machine"
proof -
  have h1: "\<not> locked (os example_machine)" by (simp add: example_defs locked_def)
  have h2: "locked (os pending_machine)" by (simp add: example_defs locked_def)
  have e: "example_machine\<lparr>os := (os example_machine)\<lparr>locked_m := True\<rparr>\<rparr> = locked_machine"
    "loaded_entries (events pending_machine) = []"
    "discarded_entries (events pending_machine) = []"
    "delayed_m (os pending_machine) = [entry_a, entry_b]"
    by (simp_all add: example_defs)
  from auto_lock_behaviour [of example_machine pending_machine]
    auto_lock_behaviour [of pending_machine pending_machine] h1 h2
  show ?thesis by (auto simp: e)
qed

text \<open>
  C4 as amended. \<^verbatim>\<open>delay_load\<close> does not look at the lock: on every cache, locked or
  not, it returns normally with exactly the given entry appended to the pending list. The
  calls that an \<^verbatim>\<open>assert\<close> stops are \<^verbatim>\<open>lock\<close> on a locked cache, and \<^verbatim>\<open>unlock\<close> and
  \<^verbatim>\<open>load_delayed\<close> on an unlocked one.
\<close>

theorem delay_load_unchecked:
  "call run t (Delay_load i ob p l) m =
     Some (Returned (m\<lparr>os := (os m)\<lparr>delayed_m :=
        delayed_m (os m) @ [\<lparr>id_dl = i, obj = ob, pos = p, loader = l\<rparr>]\<rparr>\<rparr>)) \<and>
   (locked (os m) \<longrightarrow> call run t Lock m = Some Assertion_failed) \<and>
   (\<not> locked (os m) \<longrightarrow> call run t Unlock m = Some Assertion_failed \<and>
                          call run t Load_delayed m = Some Assertion_failed)"
  by (simp add: delay_load_def with_os_def lock_def unlock_def locked_def load_delayed_def)

theorem delay_load_unchecked_witness:
  "\<not> locked (os example_machine) \<and>
   call example_loaders example_traits Unlock example_machine = Some Assertion_failed \<and>
   call example_loaders example_traits Load_delayed example_machine = Some Assertion_failed \<and>
   locked (os locked_machine) \<and>
   call example_loaders example_traits Lock locked_machine = Some Assertion_failed \<and>
   call example_loaders example_traits (Delay_load 1 10 0 0) locked_machine =
     Some (Returned (locked_machine\<lparr>os := (os locked_machine)\<lparr>delayed_m := [entry_a]\<rparr>\<rparr>))"
proof -
  have h1: "\<not> locked (os example_machine)" by (simp add: example_defs locked_def)
  have h2: "locked (os locked_machine)" by (simp add: example_defs locked_def)
  have e: "delayed_m (os locked_machine) = []" by (simp add: example_defs)
  from delay_load_unchecked [of example_loaders example_traits 1 10 0 0 example_machine]
    delay_load_unchecked [of example_loaders example_traits 1 10 0 0 locked_machine] h1 h2
  show ?thesis by (simp add: e entry_a_def)
qed

text \<open>
  C4 as stated fails: on the unlocked example cache \<^verbatim>\<open>delay_load\<close> does not stop at an
  assertion, it returns with the entry queued.
\<close>

theorem delay_load_unlocked_counterexample:
  "\<not> locked (os example_machine) \<and>
   call example_loaders example_traits (Delay_load 1 10 0 0) example_machine
     \<noteq> Some Assertion_failed \<and>
   call example_loaders example_traits (Delay_load 1 10 0 0) example_machine
     = Some (Returned (example_machine\<lparr>os := example_cache\<lparr>delayed_m := [entry_a]\<rparr>\<rparr>))"
  by (simp add: example_machine_def example_cache_def entry_a_def locked_def delay_load_def)

text \<open>
  C5. \<^verbatim>\<open>lock\<close> on a locked cache and \<^verbatim>\<open>unlock\<close> on an unlocked cache stop at the
  assertion; so does a second \<^verbatim>\<open>lock\<close> right after a \<^verbatim>\<open>lock\<close>, and an \<^verbatim>\<open>unlock\<close>
  right after an \<^verbatim>\<open>unlock\<close>. Otherwise \<^verbatim>\<open>lock\<close> sets the flag that \<^verbatim>\<open>locked\<close>
  reports and \<^verbatim>\<open>unlock\<close> resets it, and nothing else of the object changes.
\<close>

theorem lock_unlock_pairing:
  "(locked s \<longrightarrow> lock s = Assertion_failed) \<and>
   (\<not> locked s \<longrightarrow> lock s = Returned (s\<lparr>locked_m := True\<rparr>)) \<and>
   (\<not> locked s \<longrightarrow> unlock s = Assertion_failed) \<and>
   (locked s \<longrightarrow> unlock s = Returned (s\<lparr>locked_m := False\<rparr>)) \<and>
   (\<forall>s'. lock s = Returned s' \<longrightarrow> locked s' \<and> lock s' = Assertion_failed) \<and>
   (\<forall>s'. unlock s = Returned s' \<longrightarrow> \<not> locked s' \<and> unlock s' = Assertion_failed)"
  by (auto simp: lock_def unlock_def locked_def split: if_splits)

theorem lock_unlock_pairing_witness:
  "\<not> locked example_cache \<and>
   unlock example_cache = Assertion_failed \<and>
   lock example_cache = Returned (example_cache\<lparr>locked_m := True\<rparr>) \<and>
   locked (example_cache\<lparr>locked_m := True\<rparr>) \<and>
   lock (example_cache\<lparr>locked_m := True\<rparr>) = Assertion_failed \<and>
   unlock (example_cache\<lparr>locked_m := True\<rparr>) = Returned example_cache"
  using lock_unlock_pairing [of example_cache]
    lock_unlock_pairing [of "example_cache\<lparr>locked_m := True\<rparr>"]
  by (simp add: locked_def example_cache_def)

subsection \<open>Lazily constructed statements\<close>

text \<open>
  C6. Lazy singletons. Take any of the five statement accessors or
  \<^verbatim>\<open>container_statment_cache\<close>, a first call of it, then any sequence of returning calls
  of members of the cache. The first call returns a non-null reference; if the pointer was
  null it constructed exactly one object, the one for this accessor, at a fresh address,
  and if not it constructed nothing and returned the object already there. Calling the
  accessor again, at once or after the other calls, returns the same reference and
  changes nothing, so it constructs nothing.
\<close>

theorem lazy_singletons:
  assumes "accessor t k m = Some (r, m1)"
    and "run_ops run t xs m1 = Some (Returned m2)"
  shows "r \<noteq> None \<and>
     (pointer k (os m) = None \<longrightarrow>
        store m1 = store m @ [Some (constructed t k (conn_m (os m)))] \<and> r = Some (length (store m))) \<and>
     (pointer k (os m) \<noteq> None \<longrightarrow> m1 = m \<and> r = pointer k (os m)) \<and>
     accessor t k m1 = Some (r, m1) \<and>
     accessor t k m2 = Some (r, m2)"
proof -
  from accessor_first [OF assms(1)] obtain a where a: "r = Some a" "pointer k (os m1) = Some a"
    by auto
  from run_ops_pointer [OF assms(2) a(2)] have "pointer k (os m2) = Some a" .
  with a accessor_again [of k m1 a t] accessor_again [of k m2 a t] accessor_first [OF assms(1)]
  show ?thesis by simp
qed

theorem lazy_singletons_witness:
  "accessor example_traits Persist_slot example_machine
     = Some (Some 0, example_machine\<lparr>os := example_cache\<lparr>persist_m := Some 0\<rparr>,
               store := [Some (insert_statement 1 ''INSERT'' insert_image_binding_m)]\<rparr>) \<and>
   run_ops example_loaders example_traits [Find_statement, Persist_statement, Lock]
       (example_machine\<lparr>os := example_cache\<lparr>persist_m := Some 0\<rparr>,
               store := [Some (insert_statement 1 ''INSERT'' insert_image_binding_m)]\<rparr>)
     = Some (Returned (example_machine\<lparr>os := example_cache\<lparr>persist_m := Some 0, find_m := Some 1,
                                          locked_m := True\<rparr>,
               store := [Some (insert_statement 1 ''INSERT'' insert_image_binding_m),
                         Some (select_statement 1 ''SELECT'' id_image_binding_m select_image_binding_m)]\<rparr>)) \<and>
   accessor example_traits Persist_slot
       (example_machine\<lparr>os := example_cache\<lparr>persist_m := Some 0, find_m := Some 1, locked_m := True\<rparr>,
               store := [Some (insert_statement 1 ''INSERT'' insert_image_binding_m),
                         Some (select_statement 1 ''SELECT'' id_image_binding_m select_image_binding_m)]\<rparr>)
     = Some (Some 0,
        example_machine\<lparr>os := example_cache\<lparr>persist_m := Some 0, find_m := Some 1, locked_m := True\<rparr>,
               store := [Some (insert_statement 1 ''INSERT'' insert_image_binding_m),
                         Some (select_statement 1 ''SELECT'' id_image_binding_m select_image_binding_m)]\<rparr>)"
proof -
  let ?m1 = "example_machine\<lparr>os := example_cache\<lparr>persist_m := Some 0\<rparr>,
               store := [Some (insert_statement 1 ''INSERT'' insert_image_binding_m)]\<rparr>"
  let ?m2 = "example_machine\<lparr>os := example_cache\<lparr>persist_m := Some 0, find_m := Some 1, locked_m := True\<rparr>,
               store := [Some (insert_statement 1 ''INSERT'' insert_image_binding_m),
                         Some (select_statement 1 ''SELECT'' id_image_binding_m select_image_binding_m)]\<rparr>"
  have h1: "accessor example_traits Persist_slot example_machine = Some (Some 0, ?m1)"
    by (simp add: example_machine_def example_cache_def example_traits_def persist_statement_def
        new_object_def)
  have h2: "run_ops example_loaders example_traits [Find_statement, Persist_statement, Lock] ?m1
              = Some (Returned ?m2)"
    by (simp add: example_machine_def example_cache_def example_traits_def persist_statement_def
        find_statement_def new_object_def with_os_def lock_def)
  from lazy_singletons [OF h1 h2] h1 h2 show ?thesis by simp
qed

text \<open>
  C9. The optimistic extension. In the cache of a mapped type whose
  \<^verbatim>\<open>managed_optimistic_column_count\<close> is zero, \<^verbatim>\<open>od_\<close> is the specialisation without
  members, and neither the optimistic id image version, nor its binding, nor
  \<^verbatim>\<open>optimistic_erase_statement\<close> can be had. Where the count is not zero, \<^verbatim>\<open>od_\<close> has
  members, the version and the binding are there, and \<^verbatim>\<open>optimistic_erase_statement\<close>
  returns its statement, constructing on first use a delete statement over the optimistic
  erase text and the optimistic id image binding.
\<close>

theorem optimistic_presence:
  assumes "instance_of t (os m)"
  shows "(managed_optimistic_column_count t = 0 \<longrightarrow>
           od_m (os m) = optimistic_data_false \<and>
           optimistic_id_image_binding (os m) = None \<and>
           optimistic_id_image_version (os m) = None \<and>
           optimistic_id_image_version_set v (os m) = None \<and>
           optimistic_erase_statement t m = None) \<and>
         (managed_optimistic_column_count t \<noteq> 0 \<longrightarrow>
           od_m (os m) \<noteq> optimistic_data_false \<and>
           optimistic_id_image_binding (os m) = Some od_id_image_binding_m \<and>
           (\<exists>v0. optimistic_id_image_version (os m) = Some v0) \<and>
           (\<exists>s'. optimistic_id_image_version_set v (os m) = Some s') \<and>
           (\<exists>a m'. optimistic_erase_statement t m = Some (a, m') \<and>
              pointer Optimistic_erase_slot (os m') = Some a \<and>
              (pointer Optimistic_erase_slot (os m) = None \<longrightarrow>
                 a = length (store m) \<and>
                 store m' = store m @ [Some (delete_statement (conn_m (os m))
                    (optimistic_erase_statement_text t) od_id_image_binding_m)])))"
proof (cases "od_m (os m)")
  case optimistic_data_false
  with assms show ?thesis
    by (simp add: instance_of_def optimistic_id_image_binding_def optimistic_id_image_version_def
        optimistic_id_image_version_set_def optimistic_erase_statement_def)
next
  case (optimistic_data_true v0 e)
  with assms show ?thesis
    by (cases e)
       (simp_all add: instance_of_def optimistic_id_image_binding_def optimistic_id_image_version_def
        optimistic_id_image_version_set_def optimistic_erase_statement_def new_object_def)
qed

theorem optimistic_presence_witness:
  "instance_of plain_traits (os plain_machine) \<and>
   managed_optimistic_column_count plain_traits = 0 \<and>
   optimistic_id_image_binding (os plain_machine) = None \<and>
   optimistic_erase_statement plain_traits plain_machine = None \<and>
   instance_of example_traits (os example_machine) \<and>
   managed_optimistic_column_count example_traits \<noteq> 0 \<and>
   optimistic_id_image_binding (os example_machine) = Some od_id_image_binding_m \<and>
   (\<exists>a m'. optimistic_erase_statement example_traits example_machine = Some (a, m') \<and>
      a = 0 \<and>
      store m' = [Some (delete_statement 1 ''DELETE WHERE version'' od_id_image_binding_m)])"
proof -
  have h1: "instance_of plain_traits (os plain_machine)"
    by (simp add: example_defs instance_of_def)
  have h2: "instance_of example_traits (os example_machine)"
    by (simp add: example_defs instance_of_def)
  have e: "managed_optimistic_column_count plain_traits = 0"
    "managed_optimistic_column_count example_traits \<noteq> 0"
    "pointer Optimistic_erase_slot (os example_machine) = None"
    "store example_machine = []" "conn_m (os example_machine) = 1"
    "optimistic_erase_statement_text example_traits = ''DELETE WHERE version''"
    by (simp_all add: example_defs)
  from optimistic_presence [OF h1, of 0] optimistic_presence [OF h2, of 0] h1 h2 e
  show ?thesis by auto
qed

subsection \<open>Column counts and image versions\<close>

text \<open>
  C7. The derived column counts. For every descriptor, \<open>select\<close> is the total,
  \<open>insert\<close> is the total minus the inverse and the managed optimistic columns, and
  \<open>update\<close> is \<open>insert\<close> minus the id and the readonly columns, in the arithmetic of
  \<^verbatim>\<open>std::size_t\<close>; where the subtracted counts do not exceed what they are subtracted from,
  as with counts of columns, the same holds of the numbers. For a total of 10 with
  2 inverse, 1 managed optimistic, 1 id and 1 readonly column, \<open>insert\<close> is 7 and
  \<open>update\<close> is 5.
\<close>

theorem column_count_identities:
  "select_column_count t = column_count t \<and>
   insert_column_count t = column_count t - inverse_column_count t - managed_optimistic_column_count t \<and>
   update_column_count t = insert_column_count t - id_column_count t - readonly_column_count t \<and>
   (unat (inverse_column_count t) + unat (managed_optimistic_column_count t) \<le> unat (column_count t) \<longrightarrow>
      unat (insert_column_count t) =
        unat (column_count t) - unat (inverse_column_count t) - unat (managed_optimistic_column_count t)) \<and>
   (unat (inverse_column_count t) + unat (managed_optimistic_column_count t)
      + unat (id_column_count t) + unat (readonly_column_count t) \<le> unat (column_count t) \<longrightarrow>
      unat (update_column_count t) =
        unat (insert_column_count t) - unat (id_column_count t) - unat (readonly_column_count t)) \<and>
   (column_count t = 10 \<and> inverse_column_count t = 2 \<and> managed_optimistic_column_count t = 1 \<and>
    id_column_count t = 1 \<and> readonly_column_count t = 1 \<longrightarrow>
      insert_column_count t = 7 \<and> update_column_count t = 5)"
proof -
  have a: "unat (inverse_column_count t) + unat (managed_optimistic_column_count t) \<le> unat (column_count t)
      \<Longrightarrow> unat (insert_column_count t) =
        unat (column_count t) - unat (inverse_column_count t) - unat (managed_optimistic_column_count t)"
    by (simp add: insert_column_count_def unat_sub word_le_nat_alt)
  have b: "unat (inverse_column_count t) + unat (managed_optimistic_column_count t)
      + unat (id_column_count t) + unat (readonly_column_count t) \<le> unat (column_count t)
      \<Longrightarrow> unat (update_column_count t) =
        unat (insert_column_count t) - unat (id_column_count t) - unat (readonly_column_count t)"
    by (simp add: update_column_count_def insert_column_count_def unat_sub word_le_nat_alt)
  have c: "column_count t = 10 \<and> inverse_column_count t = 2 \<and> managed_optimistic_column_count t = 1 \<and>
    id_column_count t = 1 \<and> readonly_column_count t = 1 \<Longrightarrow>
      insert_column_count t = 7 \<and> update_column_count t = 5"
    by (simp add: update_column_count_def insert_column_count_def)
  from a b c show ?thesis
    by (simp add: select_column_count_def insert_column_count_def update_column_count_def)
qed

theorem column_count_identities_witness:
  "column_count example_traits = 10 \<and> inverse_column_count example_traits = 2 \<and>
   managed_optimistic_column_count example_traits = 1 \<and>
   id_column_count example_traits = 1 \<and> readonly_column_count example_traits = 1 \<and>
   select_column_count example_traits = 10 \<and>
   insert_column_count example_traits = 7 \<and> update_column_count example_traits = 5 \<and>
   unat (insert_column_count example_traits) = 7 \<and> unat (update_column_count example_traits) = 5"
proof -
  have h: "column_count example_traits = 10 \<and> inverse_column_count example_traits = 2 \<and>
    managed_optimistic_column_count example_traits = 1 \<and>
    id_column_count example_traits = 1 \<and> readonly_column_count example_traits = 1"
    by (simp add: example_traits_def)
  from column_count_identities [of example_traits] h show ?thesis by simp
qed

text \<open>
  C8 as amended. The cache keeps the image versions it is given. Across any sequence of
  calls of its members in which no version setter is passed a value below the version
  then stored, none of the stored image versions (select, insert, update, update-id, id,
  and optimistic-id where the type has it) is lower at the end than at the start, whether
  the sequence returns or its last call throws.
\<close>

theorem versions_not_lowered:
  assumes "not_lowering_run run t xs m"
    and "run_ops run t xs m = Some (Returned m') \<or> run_ops run t xs m = Some (Thrown m')"
  shows "list_all2 (\<le>) (image_versions (os m)) (image_versions (os m'))"
  using assms
proof (induction xs arbitrary: m)
  case Nil
  then show ?case by (simp add: list.rel_refl)
next
  case (Cons x xs)
  from Cons.prems(1) have nl: "not_lowering x (os m)" by simp
  show ?case
  proof (cases "call run t x m")
    case None
    with Cons.prems(2) show ?thesis by simp
  next
    case (Some r)
    show ?thesis
    proof (cases r)
      case (Returned m1)
      with Some Cons.prems have "not_lowering_run run t xs m1"
        and "run_ops run t xs m1 = Some (Returned m') \<or> run_ops run t xs m1 = Some (Thrown m')"
        by simp_all
      then have bc: "list_all2 (\<le>) (image_versions (os m1)) (image_versions (os m'))"
        by (rule Cons.IH)
      have ab: "list_all2 (\<le>) (image_versions (os m)) (image_versions (os m1))"
        using Some Returned nl call_versions [of run t x m m1] by simp
      show ?thesis
        by (rule list_all2_trans [OF order_trans ab bc])
    next
      case (Thrown m1)
      with Some Cons.prems(2) have "m1 = m'" by simp
      with Some Thrown nl call_versions [of run t x m m'] show ?thesis by simp
    next
      case Assertion_failed
      with Some Cons.prems(2) show ?thesis by simp
    qed
  qed
qed

theorem versions_not_lowered_witness:
  "not_lowering_run example_loaders example_traits
     [Insert_image_version_set 5, Lock, Insert_image_version_set 8, Id_image_version_set 2]
     example_machine \<and>
   run_ops example_loaders example_traits
     [Insert_image_version_set 5, Lock, Insert_image_version_set 8, Id_image_version_set 2]
     example_machine
     = Some (Returned (example_machine\<lparr>os := example_cache\<lparr>insert_image_version_m := 8,
          locked_m := True, id_image_version_m := 2\<rparr>\<rparr>)) \<and>
   list_all2 (\<le>) (image_versions (os example_machine))
     (image_versions (example_cache\<lparr>insert_image_version_m := 8, locked_m := True,
        id_image_version_m := 2\<rparr>)) \<and>
   image_versions (os example_machine) = [0, 0, 0, 0, 0, 0] \<and>
   image_versions (example_cache\<lparr>insert_image_version_m := 8, locked_m := True,
        id_image_version_m := 2\<rparr>) = [0, 8, 0, 0, 2, 0]"
proof -
  let ?xs = "[Insert_image_version_set 5, Lock, Insert_image_version_set 8, Id_image_version_set 2]"
  let ?s = "example_cache\<lparr>insert_image_version_m := 8, locked_m := True, id_image_version_m := 2\<rparr>"
  have h2: "run_ops example_loaders example_traits ?xs example_machine
      = Some (Returned (example_machine\<lparr>os := ?s\<rparr>))"
    by (simp add: example_machine_def example_cache_def version_defs with_os_def lock_def)
  have h1: "not_lowering_run example_loaders example_traits ?xs example_machine"
    by (simp add: example_machine_def example_cache_def version_defs with_os_def lock_def)
  have e: "image_versions (os example_machine) = [0, 0, 0, 0, 0, 0]"
    "image_versions ?s = [0, 8, 0, 0, 2, 0]"
    by (simp_all add: example_machine_def example_cache_def image_versions_def version_defs)
  from versions_not_lowered [OF h1 disjI1 [OF h2]] h1 h2 e show ?thesis by simp
qed

text \<open>
  C8 as stated fails: two calls of the insert version setter, with 5 and then with 3,
  both return, and the stored insert image version goes from 5 down to 3.
\<close>

theorem versions_decrease_counterexample:
  "run_ops example_loaders example_traits [Insert_image_version_set 5] example_machine
     = Some (Returned (example_machine\<lparr>os := example_cache\<lparr>insert_image_version_m := 5\<rparr>\<rparr>)) \<and>
   run_ops example_loaders example_traits
      [Insert_image_version_set 5, Insert_image_version_set 3] example_machine
     = Some (Returned (example_machine\<lparr>os := example_cache\<lparr>insert_image_version_m := 3\<rparr>\<rparr>)) \<and>
   insert_image_version (example_cache\<lparr>insert_image_version_m := 3\<rparr>)
     < insert_image_version (example_cache\<lparr>insert_image_version_m := 5\<rparr>)"
  by (simp add: example_machine_def example_cache_def insert_image_version_def
      insert_image_version_set_def)

text \<open>
  C10. Every image version setter stores the value it is given, whatever was stored
  before and whether the value is higher or lower: the getter then returns that value.
  The setters have no failing branch. For the optimistic id image version this holds on
  the caches that have it.
\<close>

theorem version_setters_store_verbatim:
  "select_image_version (select_image_version_set v s) = v \<and>
   insert_image_version (insert_image_version_set v s) = v \<and>
   update_image_version (update_image_version_set v s) = v \<and>
   update_id_image_version (update_id_image_version_set v s) = v \<and>
   id_image_version (id_image_version_set v s) = v \<and>
   (od_m s \<noteq> optimistic_data_false \<longrightarrow>
      (\<exists>s'. optimistic_id_image_version_set v s = Some s' \<and> optimistic_id_image_version s' = Some v))"
  by (cases "od_m s") (simp_all add: version_defs)

theorem version_setters_store_verbatim_witness:
  "od_m (insert_image_version_set 7 example_cache) \<noteq> optimistic_data_false \<and>
   insert_image_version (insert_image_version_set 7 example_cache) = 7 \<and>
   insert_image_version (insert_image_version_set 3 (insert_image_version_set 7 example_cache)) = 3 \<and>
   (\<exists>s'. optimistic_id_image_version_set 3 (insert_image_version_set 7 example_cache) = Some s' \<and>
      optimistic_id_image_version s' = Some 3)"
proof -
  have h: "od_m (insert_image_version_set 7 example_cache) \<noteq> optimistic_data_false"
    by (simp add: example_cache_def insert_image_version_set_def)
  from version_setters_store_verbatim [of 7 example_cache]
    version_setters_store_verbatim [of 3 "insert_image_version_set 7 example_cache"] h
  show ?thesis by simp
qed

end
